theory Spec2Isabelle
  imports Main "HOL-Library.Multiset"
begin

section \<open>Data model\<close>

text \<open>
  The raw record shape shared by \<^verbatim>\<open>src/app/api/notion/projects/route.ts\<close> and
  \<^verbatim>\<open>src/components/projects-slider.tsx\<close> (interfaces \<^verbatim>\<open>NotionFile\<close>,
  \<^verbatim>\<open>NotionRichText\<close>, \<^verbatim>\<open>NotionSelect\<close>, \<^verbatim>\<open>NotionPage\<close>). Field names carry a
  prefix where two interfaces use the same name or the name is reserved
  (\<^verbatim>\<open>file\<close> is \<open>file_ref\<close>, \<^verbatim>\<open>text\<close> is \<open>text_obj\<close>). The constant tags
  (\<^verbatim>\<open>type: "file"\<close>, \<^verbatim>\<open>type: "text"\<close>, \<^verbatim>\<open>object: "page"\<close>) carry no information
  and are left out. A value that is \<^verbatim>\<open>string | null\<close> is a \<open>string option\<close>.
\<close>

record NotionFileRef =
  url :: string
  expiry_time :: string

record NotionFile =
  file_name :: string
  file_ref :: NotionFileRef

record NotionText =
  content :: string
  text_link :: "string option"

record NotionRichText =
  text_obj :: NotionText
  plain_text :: string

record NotionSelect =
  select_id :: string
  select_name :: string
  color :: string

text \<open>
  \<^verbatim>\<open>properties.Cover.files\<close>, \<^verbatim>\<open>properties.Link.url\<close>, \<^verbatim>\<open>properties.Skills.rich_text\<close>,
  \<^verbatim>\<open>properties.Category.select\<close> and \<^verbatim>\<open>properties.Name.title\<close>; each wrapper object
  has a single field, so the wrappers are flattened.
\<close>

record NotionPage =
  page_id :: string
  archived :: bool
  Cover_files :: "NotionFile list"
  Link_url :: "string option"
  Skills_rich_text :: "NotionRichText list"
  Category_select :: "NotionSelect option"
  Name_title :: "NotionRichText list"

text \<open>
  The transformed shapes of the component: \<^verbatim>\<open>Project\<close> and \<^verbatim>\<open>ProjectCategory\<close>.
  The field \<^verbatim>\<open>image\<close> is \<open>image_src\<close> here; \<^verbatim>\<open>link?: string\<close> is absent when \<open>None\<close>.
\<close>

record Project =
  project_id :: string
  image_src :: string
  link :: "string option"
  skills :: string
  category :: string

record ProjectCategory =
  name :: string
  projects :: "Project list"

section \<open>JavaScript primitives used by the code\<close>

text \<open>\<^verbatim>\<open>Array.prototype.join\<close> on an array of strings.\<close>

fun join :: "string \<Rightarrow> string list \<Rightarrow> string" where
  "join sep [] = []"
| "join sep [x] = x"
| "join sep (x # y # ys) = x @ sep @ join sep (y # ys)"

text \<open>Truthiness of a value of type \<^verbatim>\<open>string | null | undefined\<close>: the empty string,
  \<^verbatim>\<open>null\<close> and \<^verbatim>\<open>undefined\<close> are falsy.\<close>

fun truthy :: "string option \<Rightarrow> bool" where
  "truthy None = False"
| "truthy (Some s) = (s \<noteq> [])"

text \<open>
  A JavaScript \<^verbatim>\<open>Map<string, Project[]>\<close> iterates in insertion order, so it is an
  association list with distinct keys. \<^verbatim>\<open>set\<close> on a present key keeps the key's place;
  on an absent key it appends. \<^verbatim>\<open>get(k)?.push(p)\<close> mutates the array stored under
  \<^verbatim>\<open>k\<close> and does nothing when \<^verbatim>\<open>k\<close> is absent.
\<close>

type_synonym projectMap = "(string \<times> Project list) list"

fun map_has :: "string \<Rightarrow> projectMap \<Rightarrow> bool" where
  "map_has k [] = False"
| "map_has k ((k', v) # m) = (k = k' \<or> map_has k m)"

fun map_set :: "string \<Rightarrow> Project list \<Rightarrow> projectMap \<Rightarrow> projectMap" where
  "map_set k v [] = [(k, v)]"
| "map_set k v ((k', v') # m) = (if k = k' then (k', v) # m else (k', v') # map_set k v m)"

fun map_get_push :: "string \<Rightarrow> Project \<Rightarrow> projectMap \<Rightarrow> projectMap" where
  "map_get_push k p [] = []"
| "map_get_push k p ((k', v) # m) =
     (if k = k' then (k', v @ [p]) # m else (k', v) # map_get_push k p m)"

section \<open>The client-side transform\<close>

text \<open>
  The body of the \<^verbatim>\<open>forEach\<close> callback of \<^verbatim>\<open>transformNotionData\<close>: the
  required-field check returns early; otherwise the project is built and pushed to its
  category's array, which is created first when the category is new.
\<close>

definition skipped :: "NotionPage \<Rightarrow> bool" where
  "skipped page =
     (length (Cover_files page) = 0 \<or> Category_select page = None
        \<or> length (Skills_rich_text page) = 0)"

definition mkProject :: "NotionPage \<Rightarrow> NotionSelect \<Rightarrow> Project" where
  "mkProject page sel =
     \<lparr> project_id = page_id page,
       image_src = url (file_ref (hd (Cover_files page))),
       link = (if truthy (Link_url page) then Link_url page else None),
       skills = join '', '' (map plain_text (Skills_rich_text page)),
       category = select_name sel \<rparr>"

definition forEach_body :: "NotionPage \<Rightarrow> projectMap \<Rightarrow> projectMap" where
  "forEach_body page projectMap =
     (if skipped page then projectMap
      else case Category_select page of
        None \<Rightarrow> projectMap
      | Some sel \<Rightarrow>
          let project = mkProject page sel;
              categoryName = select_name sel;
              projectMap' = (if \<not> map_has categoryName projectMap
                             then map_set categoryName [] projectMap else projectMap)
          in map_get_push categoryName project projectMap')"

text \<open>
  \<^verbatim>\<open>results.forEach\<close> runs the callback over the records from left to right, starting
  from the empty map; \<^verbatim>\<open>Array.from(projectMap.entries()).map(...)\<close> lists the entries in
  insertion order.
\<close>

definition transformNotionData :: "NotionPage list \<Rightarrow> ProjectCategory list" where
  "transformNotionData pages =
     map (\<lambda>(n, ps). \<lparr> name = n, projects = ps \<rparr>)
       (fold forEach_body pages [])"

text \<open>
  The project that the callback builds for one record, when the record passes the
  required-field check: the same check and the same construction as \<open>forEach_body\<close>
  (lemma \<open>forEach_body_toProject\<close> below), without the map.
\<close>

definition toProject :: "NotionPage \<Rightarrow> Project option" where
  "toProject page =
     (if skipped page then None
      else map_option (mkProject page) (Category_select page))"

definition validProjects :: "NotionPage list \<Rightarrow> Project list" where
  "validProjects pages = List.map_filter toProject pages"

definition addProject :: "Project \<Rightarrow> projectMap \<Rightarrow> projectMap" where
  "addProject p m =
     map_get_push (category p) p
       (if \<not> map_has (category p) m then map_set (category p) [] m else m)"

text \<open>
  The grouping as the specification words it: the category names in the order in which
  they are first seen, each with the projects of that category in source order.
\<close>

fun firstSeen :: "string list \<Rightarrow> string list" where
  "firstSeen [] = []"
| "firstSeen (x # xs) = x # firstSeen (removeAll x xs)"

definition grouped :: "Project list \<Rightarrow> projectMap" where
  "grouped ps =
     map (\<lambda>n. (n, filter (\<lambda>p. category p = n) ps)) (firstSeen (map category ps))"

section \<open>The content proxy: \<^verbatim>\<open>route.ts\<close>\<close>

text \<open>
  The four error texts of the route are literals in Korean; each is a constructor here:
  \<^item> \<open>TokenMissing\<close>: the text saying that the Notion API token is not set;
  \<^item> \<open>UpstreamFailed st\<close>: the text saying that the Notion API call failed, followed by
    the upstream status \<open>st\<close>;
  \<^item> \<open>InvalidFormat\<close>: the text saying that the Notion response format is not valid;
  \<^item> \<open>ServerError\<close>: the text saying that a server error occurred (the \<^verbatim>\<open>catch\<close> block).
\<close>

datatype error_message = TokenMissing | UpstreamFailed nat | InvalidFormat | ServerError

text \<open>The JSON body of a response, and the response with its status
  (\<^verbatim>\<open>NextResponse.json(body, {status})\<close>; the status is 200 when none is given).
  A key that the object literal does not have is \<open>None\<close>.\<close>

record envelope =
  success :: bool
  results :: "NotionPage list option"
  total_n :: "nat option"
  error :: "error_message option"

record http_response =
  status :: nat
  body :: envelope

definition failure :: "nat \<Rightarrow> error_message \<Rightarrow> http_response" where
  "failure st msg =
     \<lparr> status = st,
       body = \<lparr> success = False, results = None, total_n = None, error = Some msg \<rparr> \<rparr>"

definition succeeded :: "NotionPage list \<Rightarrow> http_response" where
  "succeeded filteredResults =
     \<lparr> status = 200,
       body = \<lparr> success = True, results = Some filteredResults,
                total_n = Some (length filteredResults), error = None \<rparr> \<rparr>"

text \<open>\<^verbatim>\<open>process.env\<close>: a variable that is not set is \<open>None\<close>.\<close>

record env =
  NOTION_TOKEN :: "string option"
  NOTION_DATABASE_ID :: "string option"

text \<open>
  The request body of \<^verbatim>\<open>POST\<close>. \<^verbatim>\<open>request.json()\<close> rejects when the body is not JSON
  text, which is the case of a body of length zero (\<open>NotJson\<close>); the JSON value
  \<^verbatim>\<open>null\<close> parses, and destructuring it throws (\<open>JsonNull\<close>); otherwise the body is an
  object whose keys \<^verbatim>\<open>filters\<close> and \<^verbatim>\<open>sorts\<close> are optional. A filter object is its list
  of keys with their values kept as text.
\<close>

datatype direction = ascending | descending

record NotionSort =
  property :: string
  sort_direction :: direction

type_synonym json_object = "(string \<times> string) list"

record PostRequestBody =
  filters :: "json_object option"
  sorts :: "NotionSort list option"

datatype request_body = NotJson | JsonNull | JsonObject PostRequestBody

text \<open>The call to the upstream API: the URL, the \<^verbatim>\<open>Authorization\<close> header and the body
  (\<^verbatim>\<open>GET\<close> sends none). Method, content type and version header are constants. The
  five-minute cache of the framework (\<^verbatim>\<open>next: { revalidate: 300 }\<close>) is not modelled:
  the outcome of the call is an argument of the handlers.\<close>

record query_body =
  query_filter :: "json_object option"
  query_sorts :: "NotionSort list option"

record upstream_request =
  req_url :: string
  req_authorization :: string
  req_body :: "query_body option"

text \<open>
  What the upstream call does: \<^verbatim>\<open>fetch\<close> rejects (\<open>FetchRejects\<close>), or there is a
  response with \<^verbatim>\<open>ok\<close>, \<^verbatim>\<open>status\<close>, its text and its JSON. \<open>up_json = None\<close> is a body
  on which \<^verbatim>\<open>response.json()\<close> rejects. A parsed payload is \<^verbatim>\<open>null\<close> (reading
  \<^verbatim>\<open>data.results\<close> throws), or an object whose \<^verbatim>\<open>results\<close> is missing or is not an
  array, or an object with a \<^verbatim>\<open>results\<close> array.
\<close>

datatype payload = NullPayload | NoResultsList | ResultsList "NotionPage list"

record upstream_response =
  ok :: bool
  up_status :: nat
  up_text :: string
  up_json :: "payload option"

datatype fetch_outcome = FetchRejects | Responds upstream_response

text \<open>The two \<^verbatim>\<open>console.error\<close> calls of the route: the upstream error text, and the
  entry of the \<^verbatim>\<open>catch\<close> block.\<close>

datatype server_log = ApiErrorLog string | LoadFailedLog

record handled =
  response :: http_response
  server_console :: "server_log list"
  upstream_calls :: "upstream_request list"

definition defaultDatabaseId :: string where
  "defaultDatabaseId = ''26a7cb44e75d8045a568f9f8741bec2d''"

definition databaseId :: "env \<Rightarrow> string" where
  "databaseId e =
     (case NOTION_DATABASE_ID e of
        None \<Rightarrow> defaultDatabaseId
      | Some d \<Rightarrow> (if d \<noteq> [] then d else defaultDatabaseId))"

definition queryRequest :: "env \<Rightarrow> string \<Rightarrow> query_body option \<Rightarrow> upstream_request" where
  "queryRequest e notionToken b =
     \<lparr> req_url = ''https://api.notion.com/v1/databases/'' @ databaseId e @ ''/query'',
       req_authorization = ''Bearer '' @ notionToken,
       req_body = b \<rparr>"

text \<open>The \<^verbatim>\<open>catch\<close> block: one log entry and status 500; the upstream calls made so far
  stay made.\<close>

definition caught :: "upstream_request list \<Rightarrow> handled" where
  "caught calls =
     \<lparr> response = failure 500 ServerError,
       server_console = [LoadFailedLog],
       upstream_calls = calls \<rparr>"

text \<open>
  \<^verbatim>\<open>NextResponse.json(body, { status })\<close> builds a response with a body, which the
  platform refuses for a status outside 200 to 599 and for the statuses that cannot carry
  a body; the call then throws inside the \<^verbatim>\<open>try\<close>.
\<close>

definition statusAllowsBody :: "nat \<Rightarrow> bool" where
  "statusAllowsBody st =
     (200 \<le> st \<and> st \<le> 599 \<and> st \<noteq> 204 \<and> st \<noteq> 205 \<and> st \<noteq> 304)"

text \<open>
  The branch for an upstream response that is not \<^verbatim>\<open>ok\<close>, the same in \<^verbatim>\<open>GET\<close> and
  \<^verbatim>\<open>POST\<close>: the upstream text is logged and the upstream status is passed on; when
  that status cannot be answered with a body, the \<^verbatim>\<open>catch\<close> block logs a second entry
  and answers 500.
\<close>

definition upstreamFailure :: "upstream_response \<Rightarrow> upstream_request list \<Rightarrow> handled" where
  "upstreamFailure r calls =
     (if statusAllowsBody (up_status r)
      then \<lparr> response = failure (up_status r) (UpstreamFailed (up_status r)),
             server_console = [ApiErrorLog (up_text r)],
             upstream_calls = calls \<rparr>
      else \<lparr> response = failure 500 ServerError,
             server_console = [ApiErrorLog (up_text r), LoadFailedLog],
             upstream_calls = calls \<rparr>)"

text \<open>
  The callback of \<^verbatim>\<open>data.results.filter\<close>, the same in \<^verbatim>\<open>GET\<close> and \<^verbatim>\<open>POST\<close>. The
  third conjunct is the truthiness of \<^verbatim>\<open>select?.name\<close>: a null selection and a
  selection with the empty name are both falsy. The other optional chainings
  (\<^verbatim>\<open>properties?.Cover?.files?.length\<close> and the like) guard against parts that the
  declared type \<^verbatim>\<open>NotionPage\<close> always has; on a value of that type they read the field.
\<close>

definition keepPage :: "NotionPage \<Rightarrow> bool" where
  "keepPage page =
     (\<not> archived page \<and> length (Cover_files page) > 0
        \<and> truthy (map_option select_name (Category_select page))
        \<and> length (Skills_rich_text page) > 0)"

definition GET :: "env \<Rightarrow> fetch_outcome \<Rightarrow> handled" where
  "GET e upstream =
     (case NOTION_TOKEN e of
        None \<Rightarrow> \<lparr> response = failure 500 TokenMissing, server_console = [],
                   upstream_calls = [] \<rparr>
      | Some notionToken \<Rightarrow>
          if notionToken = []
          then \<lparr> response = failure 500 TokenMissing, server_console = [],
                 upstream_calls = [] \<rparr>
          else
            let calls = [queryRequest e notionToken None] in
            (case upstream of
               FetchRejects \<Rightarrow> caught calls
             | Responds r \<Rightarrow>
                 if \<not> ok r
                 then upstreamFailure r calls
                 else
                   (case up_json r of
                      None \<Rightarrow> caught calls
                    | Some NullPayload \<Rightarrow> caught calls
                    | Some NoResultsList \<Rightarrow>
                        \<lparr> response = failure 500 InvalidFormat, server_console = [],
                          upstream_calls = calls \<rparr>
                    | Some (ResultsList pages) \<Rightarrow>
                        \<lparr> response = succeeded (filter keepPage pages),
                          server_console = [], upstream_calls = calls \<rparr>)))"

text \<open>\<^verbatim>\<open>POST\<close> parses the body first, inside the \<^verbatim>\<open>try\<close>; it does not check the shape
  of the payload, so \<^verbatim>\<open>data.results.filter\<close> throws when there is no array.\<close>

definition POST :: "env \<Rightarrow> request_body \<Rightarrow> fetch_outcome \<Rightarrow> handled" where
  "POST e request upstream =
     (case request of
        NotJson \<Rightarrow> caught []
      | JsonNull \<Rightarrow> caught []
      | JsonObject b \<Rightarrow>
          let filters' = (case filters b of None \<Rightarrow> [] | Some f \<Rightarrow> f);
              sorts' = (case sorts b of None \<Rightarrow> [] | Some s \<Rightarrow> s)
          in
          (case NOTION_TOKEN e of
             None \<Rightarrow> \<lparr> response = failure 500 TokenMissing, server_console = [],
                        upstream_calls = [] \<rparr>
           | Some notionToken \<Rightarrow>
               if notionToken = []
               then \<lparr> response = failure 500 TokenMissing, server_console = [],
                      upstream_calls = [] \<rparr>
               else
                 let requestBody =
                       \<lparr> query_filter = (if length filters' > 0 then Some filters' else None),
                         query_sorts = (if length sorts' > 0 then Some sorts' else None) \<rparr>;
                     calls = [queryRequest e notionToken (Some requestBody)]
                 in
                 (case upstream of
                    FetchRejects \<Rightarrow> caught calls
                  | Responds r \<Rightarrow>
                      if \<not> ok r
                      then upstreamFailure r calls
                      else
                        (case up_json r of
                           None \<Rightarrow> caught calls
                         | Some NullPayload \<Rightarrow> caught calls
                         | Some NoResultsList \<Rightarrow> caught calls
                         | Some (ResultsList pages) \<Rightarrow>
                             \<lparr> response = succeeded (filter keepPage pages),
                               server_console = [], upstream_calls = calls \<rparr>))))"

text \<open>
  The upstream outcome on which the two handlers part: an \<^verbatim>\<open>ok\<close> response whose
  payload is an object without a \<^verbatim>\<open>results\<close> array. \<^verbatim>\<open>GET\<close> checks the shape and
  reports it; \<^verbatim>\<open>POST\<close> has no such check.
\<close>

fun payloadWithoutList :: "fetch_outcome \<Rightarrow> bool" where
  "payloadWithoutList FetchRejects = False"
| "payloadWithoutList (Responds r) = (ok r \<and> up_json r = Some NoResultsList)"

section \<open>The component: \<^verbatim>\<open>projects-slider.tsx\<close>\<close>

text \<open>
  What the component's \<^verbatim>\<open>fetch('/api/notion/projects')\<close> and \<^verbatim>\<open>response.json()\<close>
  give: \<^verbatim>\<open>fetch\<close> rejects (a network error), or the body is not JSON, or the body is
  an envelope of the proxy. The component reads \<^verbatim>\<open>data.success\<close>, \<^verbatim>\<open>data.results\<close>
  and \<^verbatim>\<open>data.error\<close> only, never the HTTP status.
\<close>

datatype client_fetch = NetworkError | BodyNotJson | Json envelope

text \<open>The two \<^verbatim>\<open>console.error\<close> calls of \<^verbatim>\<open>loadProjectsFromNotion\<close>: the one of the
  \<^verbatim>\<open>else\<close> branch, with \<^verbatim>\<open>data.error\<close>, and the one of the \<^verbatim>\<open>catch\<close> block.\<close>

datatype client_log = DataLoadFailed "error_message option" | ApiCallFailed

text \<open>
  The state of the component that the claims are about: the three \<^verbatim>\<open>useState\<close> cells
  \<^verbatim>\<open>loading\<close>, \<^verbatim>\<open>categories\<close> and \<^verbatim>\<open>selectedImage\<close>, and around them the console,
  the number of requests sent to the proxy, the number of those that have not settled,
  and the links that the browser has opened. The editable title, subtitle and background
  are not modelled.
\<close>

record component =
  loading :: bool
  categories :: "ProjectCategory list"
  selectedImage :: "string option"
  client_console :: "client_log list"
  requests :: nat
  outstanding :: nat
  opened :: "string list"

text \<open>The initial values of the \<^verbatim>\<open>useState\<close> calls: \<^verbatim>\<open>useState(false)\<close> for
  \<^verbatim>\<open>loading\<close>, \<^verbatim>\<open>[]\<close> for \<^verbatim>\<open>categories\<close>, \<^verbatim>\<open>null\<close> for \<^verbatim>\<open>selectedImage\<close>.\<close>

definition initial :: component where
  "initial =
     \<lparr> loading = False, categories = [], selectedImage = None, client_console = [],
       requests = 0, outstanding = 0, opened = [] \<rparr>"

text \<open>
  \<^verbatim>\<open>loadProjectsFromNotion\<close> up to its first \<^verbatim>\<open>await\<close>: \<^verbatim>\<open>setLoading(true)\<close> and the
  request. It is called by the effect that depends on \<^verbatim>\<open>isEditMode\<close>: once after the
  first render, and again whenever the edit mode changes.
\<close>

definition loadStart :: "component \<Rightarrow> component" where
  "loadStart s =
     s\<lparr> loading := True, requests := requests s + 1, outstanding := outstanding s + 1 \<rparr>"

text \<open>
  The rest of \<^verbatim>\<open>loadProjectsFromNotion\<close>, run when the request settles. Calling
  \<^verbatim>\<open>transformNotionData\<close> on a missing \<^verbatim>\<open>results\<close> throws inside the \<^verbatim>\<open>try\<close>. The
  \<^verbatim>\<open>finally\<close> block runs on every path. A request settles only while it is
  outstanding, so the count is positive where it is decremented.
\<close>

definition loadSettle :: "client_fetch \<Rightarrow> component \<Rightarrow> component" where
  "loadSettle outcome s =
     (let s' =
        (case outcome of
           NetworkError \<Rightarrow> s\<lparr> client_console := client_console s @ [ApiCallFailed] \<rparr>
         | BodyNotJson \<Rightarrow> s\<lparr> client_console := client_console s @ [ApiCallFailed] \<rparr>
         | Json data \<Rightarrow>
             if success data
             then (case results data of
                     None \<Rightarrow> s\<lparr> client_console := client_console s @ [ApiCallFailed] \<rparr>
                   | Some rs \<Rightarrow> s\<lparr> categories := transformNotionData rs \<rparr>)
             else s\<lparr> client_console := client_console s @ [DataLoadFailed (error data)] \<rparr>)
      in s'\<lparr> loading := False, outstanding := outstanding s' - 1 \<rparr>)"

text \<open>
  Rendering. The spinner is under \<^verbatim>\<open>loading &&\<close>; the empty-state message is the first
  branch of \<^verbatim>\<open>!loading && categories.length === 0 ? ... : ...\<close>, the strips are the
  other branch; the overlay is under \<^verbatim>\<open>selectedImage &&\<close>.
\<close>

definition spinnerShown :: "component \<Rightarrow> bool" where
  "spinnerShown s = loading s"

definition emptyShown :: "component \<Rightarrow> bool" where
  "emptyShown s = (\<not> loading s \<and> length (categories s) = 0)"

definition stripsShown :: "component \<Rightarrow> ProjectCategory list option" where
  "stripsShown s = (if emptyShown s then None else Some (categories s))"

definition overlayShown :: "component \<Rightarrow> bool" where
  "overlayShown s = truthy (selectedImage s)"

text \<open>
  A card: \<^verbatim>\<open>project.link ? <a href={project.link} ...> : <div onClick=...>\<close>. The
  anchor has no click handler, the browser opens its \<^verbatim>\<open>href\<close>; the \<^verbatim>\<open>div\<close> calls
  \<^verbatim>\<open>setSelectedImage(project.image)\<close>.
\<close>

datatype card = Anchor string | Div string

definition renderCard :: "Project \<Rightarrow> card" where
  "renderCard project =
     (case link project of
        None \<Rightarrow> Div (image_src project)
      | Some href \<Rightarrow> (if href \<noteq> [] then Anchor href else Div (image_src project)))"

text \<open>
  The elements of the overlay that can be clicked, and the path on which a click bubbles
  from each: the close button is inside the container, the container inside the backdrop.
  A click handler gives the new state and whether it called \<^verbatim>\<open>stopPropagation\<close>.
\<close>

datatype element = Backdrop | Container | CloseButton | EnlargedImage

fun bubblePath :: "element \<Rightarrow> element list" where
  "bubblePath Backdrop = [Backdrop]"
| "bubblePath Container = [Container, Backdrop]"
| "bubblePath CloseButton = [CloseButton, Container, Backdrop]"
| "bubblePath EnlargedImage = [EnlargedImage, Container, Backdrop]"

fun onClick :: "element \<Rightarrow> component \<Rightarrow> component \<times> bool" where
  "onClick Backdrop s = (s\<lparr> selectedImage := None \<rparr>, False)"
| "onClick Container s = (s, True)"
| "onClick CloseButton s = (s\<lparr> selectedImage := None \<rparr>, False)"
| "onClick EnlargedImage s = (s, False)"

fun dispatch :: "element list \<Rightarrow> component \<Rightarrow> component" where
  "dispatch [] s = s"
| "dispatch (el # els) s =
     (case onClick el s of (s', stopped) \<Rightarrow> if stopped then s' else dispatch els s')"

text \<open>\<^verbatim>\<open>handleEsc\<close>, the \<^verbatim>\<open>keydown\<close> listener on \<^verbatim>\<open>window\<close>.\<close>

definition handleEsc :: "string \<Rightarrow> component \<Rightarrow> component" where
  "handleEsc key s = (if key = ''Escape'' then s\<lparr> selectedImage := None \<rparr> else s)"

text \<open>The events of the component and what each does to the state.\<close>

datatype event =
    EffectRuns
  | Settles client_fetch
  | CardClick card
  | OverlayClick element
  | KeyDown string

fun handle :: "event \<Rightarrow> component \<Rightarrow> component" where
  "handle EffectRuns s = loadStart s"
| "handle (Settles outcome) s = loadSettle outcome s"
| "handle (CardClick (Anchor href)) s = s\<lparr> opened := opened s @ [href] \<rparr>"
| "handle (CardClick (Div img)) s = s\<lparr> selectedImage := Some img \<rparr>"
| "handle (OverlayClick el) s = dispatch (bubblePath el) s"
| "handle (KeyDown key) s = handleEsc key s"

definition run :: "event list \<Rightarrow> component \<Rightarrow> component" where
  "run evs s = fold handle evs s"

text \<open>
  A sequence of events in which requests do not overlap: the effect runs only when no
  request is outstanding, and a request settles only when one is outstanding. The
  second argument is the number of outstanding requests before the sequence.
\<close>

fun sequential :: "event list \<Rightarrow> nat \<Rightarrow> bool" where
  "sequential [] n = True"
| "sequential (EffectRuns # evs) n = (n = 0 \<and> sequential evs 1)"
| "sequential (Settles outcome # evs) n = (n = 1 \<and> sequential evs 0)"
| "sequential (ev # evs) n = sequential evs n"

text \<open>The events of the user, which are not events of a request.\<close>

fun uiEvent :: "event \<Rightarrow> bool" where
  "uiEvent EffectRuns = False"
| "uiEvent (Settles outcome) = False"
| "uiEvent (CardClick c) = True"
| "uiEvent (OverlayClick el) = True"
| "uiEvent (KeyDown key) = True"

text \<open>
  The failed outcomes in the words of the specification: a network error or a
  non-success response. A body that is not JSON makes \<^verbatim>\<open>response.json()\<close> reject and
  counts as a failure too.
\<close>

fun networkOrNonSuccess :: "client_fetch \<Rightarrow> bool" where
  "networkOrNonSuccess NetworkError = True"
| "networkOrNonSuccess BodyNotJson = True"
| "networkOrNonSuccess (Json data) = (\<not> success data)"

section \<open>Sample data\<close>

text \<open>Records in the shape of the scenario of the specification: two in category
  \<^verbatim>\<open>Web\<close>, one of them with a link, and one in category \<^verbatim>\<open>Mobile\<close>; and a record
  whose category selection has the empty name.\<close>

definition exampleFile :: NotionFile where
  "exampleFile =
     \<lparr> file_name = ''cover.png'',
       file_ref = \<lparr> url = ''https://files.example/cover.png'', expiry_time = ''never'' \<rparr> \<rparr>"

definition exampleSkill :: NotionRichText where
  "exampleSkill =
     \<lparr> text_obj = \<lparr> content = ''React'', text_link = None \<rparr>, plain_text = ''React'' \<rparr>"

definition examplePage :: "string \<Rightarrow> string \<Rightarrow> string option \<Rightarrow> NotionPage" where
  "examplePage i cat l =
     \<lparr> page_id = i, archived = False, Cover_files = [exampleFile], Link_url = l,
       Skills_rich_text = [exampleSkill],
       Category_select = Some \<lparr> select_id = cat, select_name = cat, color = ''blue'' \<rparr>,
       Name_title = [] \<rparr>"

definition exampleResults :: "NotionPage list" where
  "exampleResults =
     [examplePage ''p1'' ''Web'' (Some ''https://example.org''),
      examplePage ''p3'' ''Mobile'' None,
      examplePage ''p2'' ''Web'' (Some [])]"

definition unnamedCategoryPage :: NotionPage where
  "unnamedCategoryPage = examplePage ''p4'' [] None"

definition exampleEnv :: env where
  "exampleEnv = \<lparr> NOTION_TOKEN = Some ''secret'', NOTION_DATABASE_ID = None \<rparr>"

definition noTokenEnv :: env where
  "noTokenEnv = \<lparr> NOTION_TOKEN = None, NOTION_DATABASE_ID = None \<rparr>"

definition exampleUpstream :: "NotionPage list \<Rightarrow> fetch_outcome" where
  "exampleUpstream pages =
     Responds \<lparr> ok = True, up_status = 200, up_text = [], up_json = Some (ResultsList pages) \<rparr>"

definition listlessUpstream :: fetch_outcome where
  "listlessUpstream =
     Responds \<lparr> ok = True, up_status = 200, up_text = [], up_json = Some NoResultsList \<rparr>"

definition emptyObject :: PostRequestBody where
  "emptyObject = \<lparr> filters = None, sorts = None \<rparr>"


definition unlinkedPage :: NotionPage where
  "unlinkedPage = examplePage ''p2'' ''Web'' (Some [])"

text \<open>A record whose only cover file has the empty URL, and the events of a first
  request that the proxy answers with the sample records.\<close>

definition emptyUrlPage :: NotionPage where
  "emptyUrlPage =
     (examplePage ''p6'' ''Web'' None)
       \<lparr> Cover_files := [\<lparr> file_name = ''cover.png'',
                            file_ref = \<lparr> url = [], expiry_time = ''never'' \<rparr> \<rparr>] \<rparr>"

definition loadedEvents :: "event list" where
  "loadedEvents =
     [EffectRuns,
      Settles (Json (body (response (GET exampleEnv (exampleUpstream exampleResults)))))]"

section \<open>Properties of the transform\<close>

lemma firstSeen_snoc:
  "firstSeen (xs @ [y]) = (if y \<in> set xs then firstSeen xs else firstSeen xs @ [y])"
  by (induction xs rule: firstSeen.induct) auto

lemma set_firstSeen: "set (firstSeen xs) = set xs"
  by (induction xs rule: firstSeen.induct) auto

lemma distinct_firstSeen: "distinct (firstSeen xs)"
  by (induction xs rule: firstSeen.induct) (auto simp: set_firstSeen)

lemma hd_firstSeen: "hd (firstSeen xs) = hd xs"
  by (cases xs) simp_all

lemma map_has_iff: "map_has k m \<longleftrightarrow> k \<in> fst ` set m"
  by (induction m) auto

lemma map_set_absent: "\<not> map_has k m \<Longrightarrow> map_set k v m = m @ [(k, v)]"
  by (induction m) auto

lemma map_get_push_absent:
  "k \<notin> fst ` set m \<Longrightarrow> map_get_push k p (m @ [(k, v)]) = m @ [(k, v @ [p])]"
  by (induction m) auto

lemma map_get_push_present:
  "distinct ks \<Longrightarrow>
   map_get_push k p (map (\<lambda>n. (n, f n)) ks) =
   map (\<lambda>n. (n, if n = k then f n @ [p] else f n)) ks"
  by (induction ks) auto

lemma forEach_body_toProject:
  "forEach_body page m = (case toProject page of None \<Rightarrow> m | Some p \<Rightarrow> addProject p m)"
  by (auto simp: forEach_body_def toProject_def addProject_def mkProject_def Let_def
           split: option.splits)

lemma fold_forEach_body:
  "fold forEach_body pages m = fold addProject (validProjects pages) m"
  by (induction pages arbitrary: m)
     (auto simp: validProjects_def List.map_filter_simps forEach_body_toProject
           split: option.splits)

lemma addProject_grouped: "addProject p (grouped ps) = grouped (ps @ [p])"
proof (cases "category p \<in> set (map category ps)")
  case True
  then have has: "map_has (category p) (grouped ps)"
    by (simp add: map_has_iff grouped_def image_image set_firstSeen)
  show ?thesis
    using True has
    by (simp add: addProject_def grouped_def firstSeen_snoc map_get_push_present
          distinct_firstSeen)
next
  case False
  then have nohas: "\<not> map_has (category p) (grouped ps)"
    by (simp add: map_has_iff grouped_def image_image set_firstSeen)
  have keys: "category p \<notin> fst ` set (grouped ps)"
    using nohas by (simp add: map_has_iff)
  have none: "filter (\<lambda>q. category q = category p) ps = []"
    using False by (auto simp: filter_empty_conv intro: rev_image_eqI)
  show ?thesis
    using False
    by (simp add: addProject_def nohas map_set_absent map_get_push_absent keys)
       (auto simp: grouped_def firstSeen_snoc none set_firstSeen)
qed

lemma fold_addProject: "fold addProject ps [] = grouped ps"
  by (induction ps rule: rev_induct)
     (simp_all add: grouped_def addProject_grouped[unfolded grouped_def])

lemma transformNotionData_grouped:
  "transformNotionData pages =
   map (\<lambda>n. \<lparr> name = n, projects = filter (\<lambda>p. category p = n) (validProjects pages) \<rparr>)
     (firstSeen (map category (validProjects pages)))"
  by (simp add: transformNotionData_def fold_forEach_body fold_addProject grouped_def)

lemma names_transformNotionData:
  "map name (transformNotionData pages) = firstSeen (map category (validProjects pages))"
  by (simp add: transformNotionData_grouped comp_def)

lemma validProjects_filter:
  "validProjects pages =
   map (\<lambda>page. mkProject page (the (Category_select page)))
     (filter (\<lambda>page. \<not> skipped page) pages)"
  by (induction pages)
     (auto simp: validProjects_def List.map_filter_simps toProject_def skipped_def
           split: option.splits)

lemma toProject_Some:
  "toProject page = Some p \<Longrightarrow>
   \<not> skipped page \<and> (\<exists>sel. Category_select page = Some sel \<and> p = mkProject page sel)"
  by (auto simp: toProject_def split: if_splits)

lemma in_validProjects:
  "p \<in> set (validProjects pages) \<Longrightarrow> \<exists>page \<in> set pages. toProject page = Some p"
  by (auto simp: validProjects_def List.map_filter_def)

lemmas example_defs =
  exampleFile_def exampleSkill_def examplePage_def exampleResults_def
  unnamedCategoryPage_def exampleEnv_def noTokenEnv_def exampleUpstream_def emptyObject_def
  listlessUpstream_def

lemmas transform_defs =
  transformNotionData_def forEach_body_def skipped_def mkProject_def toProject_def
  validProjects_def List.map_filter_simps Let_def

text \<open>
  C1. For every list of raw records, \<open>transformNotionData\<close> gives one group per category
  name of the valid records, in the order in which the names are first seen (so the
  category of the first valid record comes first), each group holding the projects of its
  category in source order, and no two groups have the same name. The valid projects are
  those built from the records that pass the required-field check, in source order.
\<close>

theorem transformNotionData_grouping:
  "transformNotionData pages =
     map (\<lambda>n. \<lparr> name = n, projects = filter (\<lambda>p. category p = n) (validProjects pages) \<rparr>)
       (firstSeen (map category (validProjects pages)))
   \<and> validProjects pages =
       map (\<lambda>page. mkProject page (the (Category_select page)))
         (filter (\<lambda>page. \<not> skipped page) pages)
   \<and> distinct (map name (transformNotionData pages))
   \<and> (validProjects pages \<noteq> [] \<longrightarrow>
        name (hd (transformNotionData pages)) = category (hd (validProjects pages)))"
proof (intro conjI impI)
  show "validProjects pages =
       map (\<lambda>page. mkProject page (the (Category_select page)))
         (filter (\<lambda>page. \<not> skipped page) pages)"
    by (rule validProjects_filter)
  show "transformNotionData pages =
     map (\<lambda>n. \<lparr> name = n, projects = filter (\<lambda>p. category p = n) (validProjects pages) \<rparr>)
       (firstSeen (map category (validProjects pages)))"
    by (rule transformNotionData_grouped)
  show "distinct (map name (transformNotionData pages))"
    by (simp add: names_transformNotionData distinct_firstSeen)
  assume ne: "validProjects pages \<noteq> []"
  then have "transformNotionData pages \<noteq> []"
    using names_transformNotionData[of pages]
    by (metis list.map_disc_iff set_firstSeen set_empty)
  then have "name (hd (transformNotionData pages)) = hd (map name (transformNotionData pages))"
    by (simp add: hd_map)
  also have "\<dots> = hd (map category (validProjects pages))"
    by (simp add: names_transformNotionData hd_firstSeen)
  also have "\<dots> = category (hd (validProjects pages))"
    using ne by (simp add: hd_map)
  finally show "name (hd (transformNotionData pages)) = category (hd (validProjects pages))" .
qed

theorem transformNotionData_grouping_witness:
  "validProjects exampleResults \<noteq> []
   \<and> name (hd (transformNotionData exampleResults)) = ''Web''
   \<and> map name (transformNotionData exampleResults) = [''Web'', ''Mobile'']
   \<and> map (map project_id \<circ> projects) (transformNotionData exampleResults)
       = [[''p1'', ''p2''], [''p3'']]"
proof -
  have ne: "validProjects exampleResults \<noteq> []"
    by (simp add: example_defs transform_defs)
  have "name (hd (transformNotionData exampleResults)) = category (hd (validProjects exampleResults))"
    using transformNotionData_grouping[of exampleResults] ne by blast
  moreover have "category (hd (validProjects exampleResults)) = ''Web''"
    by (simp add: example_defs transform_defs)
  moreover have "map name (transformNotionData exampleResults) = [''Web'', ''Mobile'']"
    by (simp add: example_defs transform_defs)
  moreover have "map (map project_id \<circ> projects) (transformNotionData exampleResults)
       = [[''p1'', ''p2''], [''p3'']]"
    by (simp add: example_defs transform_defs)
  ultimately show ?thesis using ne by simp
qed

text \<open>
  C9. In every group that \<open>transformNotionData\<close> produces, every project's category is
  the name of the group, and every project is built from a record of the input whose first
  cover file's URL is the project's image.
\<close>

theorem transformNotionData_fields:
  "\<forall>g \<in> set (transformNotionData pages). \<forall>p \<in> set (projects g).
     category p = name g
     \<and> (\<exists>page \<in> set pages. toProject page = Some p \<and> Cover_files page \<noteq> []
           \<and> image_src p = url (file_ref (Cover_files page ! 0)))"
proof (intro ballI)
  fix g p
  assume g: "g \<in> set (transformNotionData pages)" and p: "p \<in> set (projects g)"
  from g obtain n where
    gn: "g = \<lparr> name = n, projects = filter (\<lambda>p. category p = n) (validProjects pages) \<rparr>"
    by (auto simp: transformNotionData_grouped)
  from p gn have cat: "category p = name g" and pv: "p \<in> set (validProjects pages)"
    by auto
  from pv obtain page where page: "page \<in> set pages" "toProject page = Some p"
    using in_validProjects by blast
  from toProject_Some[OF page(2)] obtain sel where
    ns: "\<not> skipped page" and sel: "Category_select page = Some sel" "p = mkProject page sel"
    by blast
  from ns have files: "Cover_files page \<noteq> []"
    by (simp add: skipped_def)
  then have "image_src p = url (file_ref (Cover_files page ! 0))"
    using sel(2) by (simp add: mkProject_def hd_conv_nth)
  with cat page files show "category p = name g
     \<and> (\<exists>page \<in> set pages. toProject page = Some p \<and> Cover_files page \<noteq> []
           \<and> image_src p = url (file_ref (Cover_files page ! 0)))"
    by blast
qed

theorem transformNotionData_fields_witness:
  "transformNotionData exampleResults \<noteq> []
   \<and> projects (hd (transformNotionData exampleResults)) \<noteq> []
   \<and> category (hd (projects (hd (transformNotionData exampleResults))))
       = name (hd (transformNotionData exampleResults))
   \<and> image_src (hd (projects (hd (transformNotionData exampleResults))))
       = ''https://files.example/cover.png''"
proof -
  have ne: "transformNotionData exampleResults \<noteq> []"
    by (simp add: example_defs transform_defs)
  have pne: "projects (hd (transformNotionData exampleResults)) \<noteq> []"
    by (simp add: example_defs transform_defs)
  have g: "hd (transformNotionData exampleResults) \<in> set (transformNotionData exampleResults)"
    using ne by simp
  have p: "hd (projects (hd (transformNotionData exampleResults)))
             \<in> set (projects (hd (transformNotionData exampleResults)))"
    using pne by simp
  from transformNotionData_fields[of exampleResults] g p
  have cat: "category (hd (projects (hd (transformNotionData exampleResults))))
               = name (hd (transformNotionData exampleResults))"
    and ex: "\<exists>page \<in> set exampleResults.
               image_src (hd (projects (hd (transformNotionData exampleResults))))
                 = url (file_ref (Cover_files page ! 0))"
    by blast+
  from ex have "image_src (hd (projects (hd (transformNotionData exampleResults))))
       = ''https://files.example/cover.png''"
    by (auto simp: example_defs)
  with ne pne cat show ?thesis by simp
qed

section \<open>Properties of the proxy\<close>

lemmas proxy_defs =
  GET_def POST_def failure_def succeeded_def caught_def keepPage_def queryRequest_def
  databaseId_def defaultDatabaseId_def upstreamFailure_def statusAllowsBody_def

lemma keepPage_iff:
  "keepPage page \<longleftrightarrow>
     \<not> archived page \<and> Cover_files page \<noteq> []
     \<and> (\<exists>sel. Category_select page = Some sel \<and> select_name sel \<noteq> [])
     \<and> Skills_rich_text page \<noteq> []"
  by (cases "Category_select page") (auto simp: keepPage_def)


lemma GET_success:
  "success (body (response (GET e up))) \<Longrightarrow>
   \<exists>r pages. up = Responds r \<and> ok r \<and> up_json r = Some (ResultsList pages)
      \<and> response (GET e up) = succeeded (filter keepPage pages)"
  by (auto simp: GET_def failure_def caught_def upstreamFailure_def Let_def
           split: option.splits if_splits fetch_outcome.splits payload.splits)

text \<open>
  C2, as the code has it. Whenever \<open>GET\<close> answers with \<open>success\<close>, the upstream payload
  had a \<open>results\<close> list, the answer is status 200 with the filtered list and its length
  as \<open>total\<close>, and a record is in the filtered list exactly when it is in the upstream
  list, is not archived, has at least one cover file, has a category selection whose name
  is not empty, and has at least one skills entry.
\<close>

theorem GET_filters_results:
  assumes "success (body (response (GET e up)))"
  shows "\<exists>r pages. up = Responds r \<and> up_json r = Some (ResultsList pages)
      \<and> response (GET e up) =
          \<lparr> status = 200,
            body = \<lparr> success = True, results = Some (filter keepPage pages),
                     total_n = Some (length (filter keepPage pages)), error = None \<rparr> \<rparr>
      \<and> (\<forall>page. page \<in> set (filter keepPage pages) \<longleftrightarrow>
            page \<in> set pages \<and> \<not> archived page \<and> Cover_files page \<noteq> []
            \<and> (\<exists>sel. Category_select page = Some sel \<and> select_name sel \<noteq> [])
            \<and> Skills_rich_text page \<noteq> [])"
proof -
  from GET_success[OF assms] obtain r pages where
    up: "up = Responds r" "up_json r = Some (ResultsList pages)"
    and resp: "response (GET e up) = succeeded (filter keepPage pages)"
    by blast
  have "\<forall>page. page \<in> set (filter keepPage pages) \<longleftrightarrow>
            page \<in> set pages \<and> \<not> archived page \<and> Cover_files page \<noteq> []
            \<and> (\<exists>sel. Category_select page = Some sel \<and> select_name sel \<noteq> [])
            \<and> Skills_rich_text page \<noteq> []"
    using keepPage_iff by auto
  with up resp show ?thesis
    by (simp add: succeeded_def)
qed

text \<open>The sample response: the record with the unnamed category is dropped, the three
  others are returned.\<close>

theorem GET_filters_results_witness:
  "success (body (response (GET exampleEnv (exampleUpstream (unnamedCategoryPage # exampleResults)))))
   \<and> results (body (response (GET exampleEnv (exampleUpstream (unnamedCategoryPage # exampleResults)))))
       = Some exampleResults
   \<and> total_n (body (response (GET exampleEnv (exampleUpstream (unnamedCategoryPage # exampleResults)))))
       = Some 3"
proof -
  have s: "success (body (response (GET exampleEnv (exampleUpstream (unnamedCategoryPage # exampleResults)))))"
    by (simp add: example_defs proxy_defs)
  from GET_filters_results[OF s] obtain r pages where
    "exampleUpstream (unnamedCategoryPage # exampleResults) = Responds r"
    "up_json r = Some (ResultsList pages)"
    and resp: "response (GET exampleEnv (exampleUpstream (unnamedCategoryPage # exampleResults))) =
          \<lparr> status = 200,
            body = \<lparr> success = True, results = Some (filter keepPage pages),
                     total_n = Some (length (filter keepPage pages)), error = None \<rparr> \<rparr>"
    by blast
  then have pages: "pages = unnamedCategoryPage # exampleResults"
    by (auto simp: exampleUpstream_def)
  have "filter keepPage (unnamedCategoryPage # exampleResults) = exampleResults"
    by (simp add: example_defs keepPage_def)
  with resp pages s show ?thesis
    by (simp add: exampleResults_def)
qed

text \<open>
  C2 as stated fails: a record that is not archived and has a cover file, a non-null
  category selection and a skills entry is not returned when the selection's name is
  empty.
\<close>

theorem GET_filter_counterexample:
  "success (body (response (GET exampleEnv (exampleUpstream [unnamedCategoryPage]))))
   \<and> results (body (response (GET exampleEnv (exampleUpstream [unnamedCategoryPage])))) = Some []
   \<and> \<not> archived unnamedCategoryPage
   \<and> Cover_files unnamedCategoryPage \<noteq> []
   \<and> Category_select unnamedCategoryPage \<noteq> None
   \<and> Skills_rich_text unnamedCategoryPage \<noteq> []"
  by (simp add: example_defs proxy_defs)

text \<open>
  C7. When the token is not set (or is the empty string), \<open>GET\<close> and \<open>POST\<close>, whatever
  the request body and whatever the upstream would answer, return status 500 with a body
  that has \<open>success = False\<close> and an \<open>error\<close> and nothing else, and make no upstream
  call.
\<close>

theorem missing_credential:
  assumes "\<not> truthy (NOTION_TOKEN e)"
  shows "GET e up = \<lparr> response = failure 500 TokenMissing, server_console = [],
                       upstream_calls = [] \<rparr>
     \<and> status (response (POST e rq up)) = 500
     \<and> success (body (response (POST e rq up))) = False
     \<and> results (body (response (POST e rq up))) = None
     \<and> total_n (body (response (POST e rq up))) = None
     \<and> error (body (response (POST e rq up))) \<noteq> None
     \<and> upstream_calls (POST e rq up) = []"
proof -
  from assms have tok: "NOTION_TOKEN e = None \<or> NOTION_TOKEN e = Some []"
    by (cases "NOTION_TOKEN e") auto
  then have "GET e up = \<lparr> response = failure 500 TokenMissing, server_console = [],
                       upstream_calls = [] \<rparr>"
    by (auto simp: GET_def)
  moreover from tok have "status (response (POST e rq up)) = 500
     \<and> success (body (response (POST e rq up))) = False
     \<and> results (body (response (POST e rq up))) = None
     \<and> total_n (body (response (POST e rq up))) = None
     \<and> error (body (response (POST e rq up))) \<noteq> None
     \<and> upstream_calls (POST e rq up) = []"
    by (cases rq) (auto simp: POST_def failure_def caught_def Let_def)
  ultimately show ?thesis by simp
qed

text \<open>With no token in the environment.\<close>

theorem missing_credential_witness:
  "\<not> truthy (NOTION_TOKEN noTokenEnv)
   \<and> status (response (GET noTokenEnv (exampleUpstream exampleResults))) = 500
   \<and> body (response (GET noTokenEnv (exampleUpstream exampleResults)))
       = \<lparr> success = False, results = None, total_n = None, error = Some TokenMissing \<rparr>
   \<and> upstream_calls (GET noTokenEnv (exampleUpstream exampleResults)) = []
   \<and> status (response (POST noTokenEnv (JsonObject emptyObject) (exampleUpstream exampleResults))) = 500
   \<and> upstream_calls (POST noTokenEnv (JsonObject emptyObject) (exampleUpstream exampleResults)) = []"
proof -
  have h: "\<not> truthy (NOTION_TOKEN noTokenEnv)"
    by (simp add: noTokenEnv_def)
  show ?thesis
    using h missing_credential[OF h, of "exampleUpstream exampleResults" "JsonObject emptyObject"]
    by (simp add: failure_def)
qed

text \<open>
  C3 as stated fails: with a token and an upstream that answers with three valid records,
  \<open>POST\<close> with a body of length zero returns status 500 and the server-error envelope,
  while \<open>GET\<close> returns status 200 and the three records. With the empty JSON object
  as body the two still differ in the error text when the upstream payload has no
  \<open>results\<close> list.
\<close>

theorem POST_empty_body_counterexample:
  "response (POST exampleEnv NotJson (exampleUpstream exampleResults))
     = \<lparr> status = 500,
         body = \<lparr> success = False, results = None, total_n = None, error = Some ServerError \<rparr> \<rparr>
   \<and> response (GET exampleEnv (exampleUpstream exampleResults))
     = \<lparr> status = 200,
         body = \<lparr> success = True, results = Some exampleResults, total_n = Some 3,
                  error = None \<rparr> \<rparr>
   \<and> error (body (response (POST exampleEnv (JsonObject emptyObject) listlessUpstream)))
     = Some ServerError
   \<and> error (body (response (GET exampleEnv listlessUpstream))) = Some InvalidFormat"
  by (simp add: example_defs proxy_defs)

text \<open>
  C3, as the code has it. A \<open>POST\<close> whose body is a JSON object with no filters and no
  sorts gives the same response and the same log as \<open>GET\<close>, and sends the same query
  with an empty object as body, for every environment and every upstream outcome other
  than an \<open>ok\<close> response whose payload has no \<open>results\<close> list. A body of length zero
  is not JSON: \<open>POST\<close> answers it with status 500 and the server-error envelope, and
  makes no upstream call.
\<close>

theorem POST_without_parameters:
  assumes "filters b = None \<or> filters b = Some []"
    and "sorts b = None \<or> sorts b = Some []"
    and "\<not> payloadWithoutList up"
  shows "response (POST e (JsonObject b) up) = response (GET e up)
     \<and> server_console (POST e (JsonObject b) up) = server_console (GET e up)
     \<and> upstream_calls (POST e (JsonObject b) up) =
         map (\<lambda>q. q\<lparr> req_body := Some \<lparr> query_filter = None, query_sorts = None \<rparr> \<rparr>)
           (upstream_calls (GET e up))
     \<and> response (POST e NotJson up') = failure 500 ServerError
     \<and> upstream_calls (POST e NotJson up') = []"
proof -
  have nj: "response (POST e NotJson up') = failure 500 ServerError
     \<and> upstream_calls (POST e NotJson up') = []"
    by (simp add: POST_def caught_def)
  have eq: "response (POST e (JsonObject b) up) = response (GET e up)
     \<and> server_console (POST e (JsonObject b) up) = server_console (GET e up)
     \<and> upstream_calls (POST e (JsonObject b) up) =
         map (\<lambda>q. q\<lparr> req_body := Some \<lparr> query_filter = None, query_sorts = None \<rparr> \<rparr>)
           (upstream_calls (GET e up))"
  proof (cases up)
    case FetchRejects
    with assms(1,2) show ?thesis
      by (auto simp: POST_def GET_def caught_def queryRequest_def Let_def split: option.splits)
  next
    case (Responds r)
    with assms(3) have nl: "\<not> (ok r \<and> up_json r = Some NoResultsList)"
      by simp
    show ?thesis
    proof (cases "ok r")
      case False
      with Responds assms(1,2) show ?thesis
        by (auto simp: POST_def GET_def caught_def upstreamFailure_def queryRequest_def Let_def
                 split: option.splits)
    next
      case True
      with nl have "up_json r \<noteq> Some NoResultsList" by simp
      with True Responds assms(1,2) show ?thesis
        by (auto simp: POST_def GET_def caught_def queryRequest_def Let_def
                 split: option.splits payload.splits)
    qed
  qed
  from eq nj show ?thesis by simp
qed

text \<open>The empty JSON object against the sample upstream.\<close>

theorem POST_without_parameters_witness:
  "(filters emptyObject = None \<or> filters emptyObject = Some [])
   \<and> (sorts emptyObject = None \<or> sorts emptyObject = Some [])
   \<and> \<not> payloadWithoutList (exampleUpstream exampleResults)
   \<and> response (POST exampleEnv (JsonObject emptyObject) (exampleUpstream exampleResults))
       = response (GET exampleEnv (exampleUpstream exampleResults))
   \<and> status (response (POST exampleEnv (JsonObject emptyObject) (exampleUpstream exampleResults)))
       = 200"
proof -
  have f: "filters emptyObject = None \<or> filters emptyObject = Some []"
    and so: "sorts emptyObject = None \<or> sorts emptyObject = Some []"
    by (simp_all add: emptyObject_def)
  have p: "\<not> payloadWithoutList (exampleUpstream exampleResults)"
    by (simp add: exampleUpstream_def)
  have "response (POST exampleEnv (JsonObject emptyObject) (exampleUpstream exampleResults))
       = response (GET exampleEnv (exampleUpstream exampleResults))"
    using POST_without_parameters[OF f so p] by blast
  moreover have "status (response (GET exampleEnv (exampleUpstream exampleResults))) = 200"
    by (simp add: example_defs proxy_defs)
  ultimately show ?thesis using f so p by simp
qed

section \<open>Client validation\<close>







lemma accepted_in_transform:
  assumes "page \<in> set pages" and "\<not> skipped page"
  shows "\<exists>g \<in> set (transformNotionData pages).
           Some (name g) = map_option select_name (Category_select page)
           \<and> mkProject page (the (Category_select page)) \<in> set (projects g)"
proof -
  from assms obtain sel where sel: "Category_select page = Some sel"
    by (auto simp: skipped_def)
  let ?p = "mkProject page sel"
  from assms sel have tp: "toProject page = Some ?p"
    by (simp add: toProject_def)
  with assms have pv: "?p \<in> set (validProjects pages)"
    by (force simp: validProjects_def List.map_filter_def)
  have cat: "category ?p = select_name sel"
    by (simp add: mkProject_def)
  let ?g = "\<lparr> name = select_name sel,
              projects = filter (\<lambda>p. category p = select_name sel) (validProjects pages) \<rparr>"
  from pv cat have "select_name sel \<in> set (firstSeen (map category (validProjects pages)))"
    by (force simp: set_firstSeen)
  then have "?g \<in> set (transformNotionData pages)"
    by (auto simp: transformNotionData_grouped)
  moreover from pv cat have "?p \<in> set (projects ?g)"
    by simp
  ultimately show ?thesis
    using sel by (intro bexI[of _ ?g]) simp_all
qed

lemma emitted_from_record:
  assumes "g \<in> set (transformNotionData pages)" and "p \<in> set (projects g)"
  shows "\<exists>page \<in> set pages. \<not> skipped page \<and> p = mkProject page (the (Category_select page))"
proof -
  from assms obtain n where
    "g = \<lparr> name = n, projects = filter (\<lambda>p. category p = n) (validProjects pages) \<rparr>"
    by (auto simp: transformNotionData_grouped)
  with assms(2) have "p \<in> set (validProjects pages)"
    by simp
  then show ?thesis
    by (auto simp: validProjects_filter)
qed




section \<open>Properties of the component\<close>

lemmas component_defs =
  initial_def loadStart_def loadSettle_def run_def spinnerShown_def emptyShown_def
  overlayShown_def handleEsc_def renderCard_def

lemma loadSettle_outstanding: "outstanding (loadSettle outcome s) = outstanding s - 1"
  by (auto simp: loadSettle_def Let_def split: client_fetch.splits option.splits)

lemma loadSettle_not_loading: "\<not> loading (loadSettle outcome s)"
  by (auto simp: loadSettle_def Let_def split: client_fetch.splits option.splits)

lemma run_append: "run (xs @ ys) s = run ys (run xs s)"
  by (simp add: run_def)

lemma run_Nil: "run [] s = s"
  by (simp add: run_def)

lemma run_Cons: "run (ev # evs) s = run evs (handle ev s)"
  by (simp add: run_def)

lemma dispatch_keeps_categories: "categories (dispatch (bubblePath el) s) = categories s"
  by (cases el) simp_all

lemma uiEvent_keeps_categories: "uiEvent ev \<Longrightarrow> categories (handle ev s) = categories s"
proof (cases ev)
  case (CardClick c)
  then show ?thesis by (cases c) simp_all
next
  case (OverlayClick el)
  then show ?thesis by (simp add: dispatch_keeps_categories)
next
  case (KeyDown key)
  then show ?thesis by (simp add: handleEsc_def)
qed simp_all

lemma uiEvents_keep_categories:
  "list_all uiEvent mid \<Longrightarrow> categories (run mid s) = categories s"
  by (induction mid arbitrary: s) (simp_all add: run_def uiEvent_keeps_categories)

lemma failed_settle_keeps_categories:
  "networkOrNonSuccess outcome \<Longrightarrow> categories (loadSettle outcome s) = categories s"
  by (cases outcome) (simp_all add: loadSettle_def)

text \<open>
  C5, as the code has it. When a request settles with a network error or a non-success
  response, the component logs one entry, sends no further request, sets \<open>loading\<close> to
  false and does not change the category list. When requests do not overlap, the list
  after a failed request has settled is therefore the list from before the request was
  sent, whatever the user did in between; after a failed first request it is empty.
\<close>

theorem failed_fetch_keeps_categories:
  assumes "networkOrNonSuccess outcome"
  shows "client_console (loadSettle outcome s) =
           client_console s @
             [case outcome of Json data \<Rightarrow> DataLoadFailed (error data) | _ \<Rightarrow> ApiCallFailed]
     \<and> requests (loadSettle outcome s) = requests s
     \<and> categories (loadSettle outcome s) = categories s
     \<and> loading (loadSettle outcome s) = False
     \<and> (sequential (evs @ EffectRuns # mid @ [Settles outcome]) 0 \<and> list_all uiEvent mid \<longrightarrow>
          categories (run (evs @ EffectRuns # mid @ [Settles outcome]) initial)
            = categories (run evs initial))
     \<and> (list_all uiEvent mid \<longrightarrow>
          categories (run (EffectRuns # mid @ [Settles outcome]) initial) = [])"
proof (intro conjI impI)
  show "client_console (loadSettle outcome s) =
           client_console s @
             [case outcome of Json data \<Rightarrow> DataLoadFailed (error data) | _ \<Rightarrow> ApiCallFailed]"
    using assms by (cases outcome) (simp_all add: loadSettle_def)
  show "requests (loadSettle outcome s) = requests s"
    by (cases outcome) (simp_all add: loadSettle_def split: option.splits)
  show "categories (loadSettle outcome s) = categories s"
    using assms by (rule failed_settle_keeps_categories)
  show "loading (loadSettle outcome s) = False"
    by (simp add: loadSettle_not_loading)
next
  assume a: "sequential (evs @ EffectRuns # mid @ [Settles outcome]) 0 \<and> list_all uiEvent mid"
  have "categories (run (evs @ EffectRuns # mid @ [Settles outcome]) initial)
      = categories (run mid (loadStart (run evs initial)))"
    using assms by (simp add: run_append run_Cons run_Nil failed_settle_keeps_categories)
  also have "\<dots> = categories (loadStart (run evs initial))"
    using a by (simp add: uiEvents_keep_categories)
  finally show "categories (run (evs @ EffectRuns # mid @ [Settles outcome]) initial)
            = categories (run evs initial)"
    by (simp add: loadStart_def)
next
  assume a: "list_all uiEvent mid"
  have "categories (run (EffectRuns # mid @ [Settles outcome]) initial)
      = categories (run mid (loadStart initial))"
    using assms by (simp add: run_append run_Cons run_Nil failed_settle_keeps_categories)
  also have "\<dots> = categories (loadStart initial)"
    using a by (simp add: uiEvents_keep_categories)
  finally show "categories (run (EffectRuns # mid @ [Settles outcome]) initial) = []"
    by (simp add: loadStart_def initial_def)
qed

text \<open>A first request that succeeds, then the Escape key and a second request that
  fails: the two categories of the first request stay.\<close>

theorem failed_fetch_keeps_categories_witness:
  "networkOrNonSuccess NetworkError
   \<and> sequential (loadedEvents @ EffectRuns # [KeyDown ''Escape''] @ [Settles NetworkError]) 0
   \<and> list_all uiEvent [KeyDown ''Escape'']
   \<and> map name (categories (run loadedEvents initial)) = [''Web'', ''Mobile'']
   \<and> map name (categories
        (run (loadedEvents @ EffectRuns # [KeyDown ''Escape''] @ [Settles NetworkError]) initial))
       = [''Web'', ''Mobile'']
   \<and> client_console
        (run (loadedEvents @ EffectRuns # [KeyDown ''Escape''] @ [Settles NetworkError]) initial)
       = [ApiCallFailed]
   \<and> categories (run (EffectRuns # [KeyDown ''Escape''] @ [Settles NetworkError]) initial) = []"
proof -
  have h: "networkOrNonSuccess NetworkError"
    by simp
  have sq: "sequential (loadedEvents @ EffectRuns # [KeyDown ''Escape''] @ [Settles NetworkError]) 0"
    by (simp add: loadedEvents_def)
  have ui: "list_all uiEvent [KeyDown ''Escape'']"
    by simp
  have before: "map name (categories (run loadedEvents initial)) = [''Web'', ''Mobile'']"
    by (simp add: loadedEvents_def example_defs transform_defs component_defs GET_def
          succeeded_def keepPage_def)
  have con: "client_console (run loadedEvents initial) = []"
    by (simp add: loadedEvents_def example_defs component_defs GET_def succeeded_def)
  note t = failed_fetch_keeps_categories[OF h,
      of "handleEsc ''Escape'' (loadStart (run loadedEvents initial))"
         loadedEvents "[KeyDown ''Escape'']"]
  from t sq ui have same:
    "categories (run (loadedEvents @ EffectRuns # [KeyDown ''Escape''] @ [Settles NetworkError]) initial)
       = categories (run loadedEvents initial)"
    by blast
  from t ui have first:
    "categories (run (EffectRuns # [KeyDown ''Escape''] @ [Settles NetworkError]) initial) = []"
    by blast
  from t have "client_console (loadSettle NetworkError
                 (handleEsc ''Escape'' (loadStart (run loadedEvents initial))))
      = client_console (handleEsc ''Escape'' (loadStart (run loadedEvents initial)))
          @ [ApiCallFailed]"
    by simp
  then have log: "client_console
        (run (loadedEvents @ EffectRuns # [KeyDown ''Escape''] @ [Settles NetworkError]) initial)
       = [ApiCallFailed]"
    using con by (simp add: run_append run_Cons run_Nil handleEsc_def loadStart_def)
  from h sq ui before same first log show ?thesis
    by simp
qed

text \<open>
  C5 as stated fails: after a first request that succeeded, a second request that ends in
  a network error leaves the two categories of the first in the state.
\<close>

theorem failed_refetch_counterexample:
  "networkOrNonSuccess NetworkError
   \<and> map name (categories
        (run [EffectRuns,
              Settles (Json (body (response (GET exampleEnv (exampleUpstream exampleResults))))),
              EffectRuns,
              Settles NetworkError] initial)) = [''Web'', ''Mobile'']"
  by (simp add: example_defs transform_defs component_defs GET_def succeeded_def keepPage_def)

text \<open>
  C6. The overlay state is the one cell \<open>selectedImage\<close>: a click on a card without a
  link while an image is open puts the card's image in its place; a click on the backdrop,
  a click on the close button and the Escape key each set the cell to null and change
  nothing else; a click on the container or on the enlarged image inside it changes
  nothing.
\<close>

theorem overlay_single_value:
  "handle (CardClick (Div b)) (s\<lparr> selectedImage := Some a \<rparr>) = s\<lparr> selectedImage := Some b \<rparr>
   \<and> handle (OverlayClick Backdrop) s = s\<lparr> selectedImage := None \<rparr>
   \<and> handle (OverlayClick CloseButton) s = s\<lparr> selectedImage := None \<rparr>
   \<and> handle (KeyDown ''Escape'') s = s\<lparr> selectedImage := None \<rparr>
   \<and> handle (OverlayClick Container) s = s
   \<and> handle (OverlayClick EnlargedImage) s = s"
  by (simp add: handleEsc_def)

lemma dispatch_keeps_fetch_state:
  "outstanding (dispatch (bubblePath el) s) = outstanding s
   \<and> loading (dispatch (bubblePath el) s) = loading s"
  by (cases el) simp_all

lemma CardClick_keeps_fetch_state:
  "outstanding (handle (CardClick c) s) = outstanding s
   \<and> loading (handle (CardClick c) s) = loading s"
  by (cases c) simp_all

lemma sequential_invariant:
  "sequential evs n \<Longrightarrow> outstanding s = n \<Longrightarrow> loading s = (n = 1) \<Longrightarrow> n \<le> 1 \<Longrightarrow>
   loading (run evs s) = (outstanding (run evs s) = 1) \<and> outstanding (run evs s) \<le> 1"
proof (induction evs arbitrary: s n)
  case Nil
  then show ?case by (auto simp: run_def)
next
  case (Cons ev evs)
  have step: "run (ev # evs) s = run evs (handle ev s)"
    by (simp add: run_def)
  show ?case
  proof (cases ev)
    case EffectRuns
    with Cons.prems have "sequential evs 1" "outstanding (handle ev s) = 1"
      "loading (handle ev s) = ((1::nat) = 1)"
      by (simp_all add: loadStart_def)
    from Cons.IH[OF this] show ?thesis
      by (simp add: step)
  next
    case (Settles outcome)
    with Cons.prems have "sequential evs 0" "outstanding (handle ev s) = 0"
      "loading (handle ev s) = ((0::nat) = 1)"
      by (simp_all add: loadSettle_outstanding loadSettle_not_loading)
    from Cons.IH[OF this] show ?thesis
      by (simp add: step)
  next
    case (CardClick c)
    with Cons.prems CardClick_keeps_fetch_state[of c s]
    have "sequential evs n" "outstanding (handle ev s) = n" "loading (handle ev s) = (n = 1)"
      by simp_all
    from Cons.IH[OF this Cons.prems(4)] show ?thesis
      by (simp add: step)
  next
    case (OverlayClick el)
    with Cons.prems dispatch_keeps_fetch_state[of el s]
    have "sequential evs n" "outstanding (handle ev s) = n" "loading (handle ev s) = (n = 1)"
      by simp_all
    from Cons.IH[OF this Cons.prems(4)] show ?thesis
      by (simp add: step)
  next
    case (KeyDown key)
    with Cons.prems
    have "sequential evs n" "outstanding (handle ev s) = n" "loading (handle ev s) = (n = 1)"
      by (simp_all add: handleEsc_def)
    from Cons.IH[OF this Cons.prems(4)] show ?thesis
      by (simp add: step)
  qed
qed

lemma sequential_before_settle:
  "sequential (evs @ [Settles outcome]) n \<Longrightarrow> outstanding s = n \<Longrightarrow> loading s = (n = 1) \<Longrightarrow>
   loading (run evs s)"
proof (induction evs arbitrary: s n)
  case Nil
  then show ?case by (auto simp: run_def)
next
  case (Cons ev evs)
  have step: "run (ev # evs) s = run evs (handle ev s)"
    by (simp add: run_def)
  show ?case
  proof (cases ev)
    case EffectRuns
    with Cons.prems have "sequential (evs @ [Settles outcome]) 1" "outstanding (handle ev s) = 1"
      "loading (handle ev s) = ((1::nat) = 1)"
      by (simp_all add: loadStart_def)
    from Cons.IH[OF this] show ?thesis
      by (simp add: step)
  next
    case (Settles outcome')
    with Cons.prems have "sequential (evs @ [Settles outcome]) 0" "outstanding (handle ev s) = 0"
      "loading (handle ev s) = ((0::nat) = 1)"
      by (simp_all add: loadSettle_outstanding loadSettle_not_loading)
    from Cons.IH[OF this] show ?thesis
      by (simp add: step)
  next
    case (CardClick c)
    with Cons.prems CardClick_keeps_fetch_state[of c s]
    have "sequential (evs @ [Settles outcome]) n" "outstanding (handle ev s) = n"
      "loading (handle ev s) = (n = 1)"
      by simp_all
    from Cons.IH[OF this] show ?thesis
      by (simp add: step)
  next
    case (OverlayClick el)
    with Cons.prems dispatch_keeps_fetch_state[of el s]
    have "sequential (evs @ [Settles outcome]) n" "outstanding (handle ev s) = n"
      "loading (handle ev s) = (n = 1)"
      by simp_all
    from Cons.IH[OF this] show ?thesis
      by (simp add: step)
  next
    case (KeyDown key)
    with Cons.prems
    have "sequential (evs @ [Settles outcome]) n" "outstanding (handle ev s) = n"
      "loading (handle ev s) = (n = 1)"
      by (simp_all add: handleEsc_def)
    from Cons.IH[OF this] show ?thesis
      by (simp add: step)
  qed
qed

text \<open>
  C8, as the code has it. The state starts with \<open>loading\<close> false and no categories, so
  the first render shows the empty-state message and no spinner. Starting a request shows
  the spinner and hides the empty-state message; a request that settles hides the
  spinner, and the empty-state message is then shown exactly when there is no category.
  When requests do not overlap, the empty-state message is never shown while a request is
  outstanding, and every settling request takes the view from the spinner to no spinner.
\<close>

theorem view_states:
  "\<not> spinnerShown initial \<and> emptyShown initial
   \<and> spinnerShown (handle EffectRuns s) \<and> \<not> emptyShown (handle EffectRuns s)
   \<and> \<not> spinnerShown (handle (Settles outcome) s)
   \<and> emptyShown (handle (Settles outcome) s) = (categories (handle (Settles outcome) s) = [])
   \<and> (sequential evs 0 \<and> emptyShown (run evs initial) \<longrightarrow> outstanding (run evs initial) = 0)
   \<and> (sequential (evs @ [Settles outcome]) 0 \<longrightarrow>
        spinnerShown (run evs initial) \<and> \<not> spinnerShown (run (evs @ [Settles outcome]) initial))"
proof (intro conjI impI)
  show "\<not> spinnerShown initial" "emptyShown initial"
    by (simp_all add: spinnerShown_def emptyShown_def initial_def)
  show "spinnerShown (handle EffectRuns s)" "\<not> emptyShown (handle EffectRuns s)"
    by (simp_all add: spinnerShown_def emptyShown_def loadStart_def)
  show "\<not> spinnerShown (handle (Settles outcome) s)"
    by (simp add: spinnerShown_def loadSettle_not_loading)
  show "emptyShown (handle (Settles outcome) s) = (categories (handle (Settles outcome) s) = [])"
    by (simp add: emptyShown_def loadSettle_not_loading)
next
  assume a: "sequential evs 0 \<and> emptyShown (run evs initial)"
  have i: "outstanding initial = 0" "loading initial = ((0::nat) = 1)" "(0::nat) \<le> 1"
    by (simp_all add: initial_def)
  from a sequential_invariant[OF _ i] have
    "loading (run evs initial) = (outstanding (run evs initial) = 1)"
    "outstanding (run evs initial) \<le> 1"
    by blast+
  moreover from a have "\<not> loading (run evs initial)"
    by (simp add: emptyShown_def)
  ultimately show "outstanding (run evs initial) = 0"
    by auto
next
  assume a: "sequential (evs @ [Settles outcome]) 0"
  have i: "outstanding initial = 0" "loading initial = ((0::nat) = 1)"
    by (simp_all add: initial_def)
  from sequential_before_settle[OF a i] show "spinnerShown (run evs initial)"
    by (simp add: spinnerShown_def)
  show "\<not> spinnerShown (run (evs @ [Settles outcome]) initial)"
    by (simp add: run_def spinnerShown_def loadSettle_not_loading)
qed

text \<open>One request that fails.\<close>

theorem view_states_witness:
  "sequential [EffectRuns, Settles NetworkError] 0
   \<and> emptyShown (run [EffectRuns, Settles NetworkError] initial)
   \<and> outstanding (run [EffectRuns, Settles NetworkError] initial) = 0
   \<and> spinnerShown (run [EffectRuns] initial)
   \<and> \<not> spinnerShown (run [EffectRuns, Settles NetworkError] initial)"
proof -
  have s: "sequential [EffectRuns, Settles NetworkError] 0"
    by simp
  have e: "emptyShown (run [EffectRuns, Settles NetworkError] initial)"
    by (simp add: component_defs)
  have s': "sequential ([EffectRuns] @ [Settles NetworkError]) 0"
    by simp
  from view_states[of "loadStart initial" NetworkError "[EffectRuns, Settles NetworkError]"] s e
  have "outstanding (run [EffectRuns, Settles NetworkError] initial) = 0"
    by blast
  moreover from view_states[of "loadStart initial" NetworkError "[EffectRuns]"] s'
  have "spinnerShown (run [EffectRuns] initial)
        \<and> \<not> spinnerShown (run ([EffectRuns] @ [Settles NetworkError]) initial)"
    by blast
  ultimately show ?thesis using s e by simp
qed

text \<open>
  C8 as stated fails: in the initial state, before any request is sent, the spinner is not
  shown and the empty-state message is; and when the effect runs twice before the first
  request settles, the empty-state message is shown while the second request is
  outstanding.
\<close>

theorem view_states_counterexample:
  "\<not> spinnerShown initial \<and> emptyShown initial \<and> requests initial = 0
   \<and> emptyShown (run [EffectRuns, EffectRuns, Settles NetworkError] initial)
   \<and> outstanding (run [EffectRuns, EffectRuns, Settles NetworkError] initial) = 1"
  by (simp add: component_defs)

text \<open>
  C10, as the code has it. Every record of the input that the transform accepts has a
  project in the result, with the URL of its first cover file as image. When the link URL
  of the record is null or the empty string, the project has no link, its card is the
  \<^verbatim>\<open>div\<close>, and a click on the card sets the overlay image to the project's image and
  opens no link; the overlay is then shown exactly when that image URL is not empty. When
  the link URL is a non-empty string, the card is an anchor to it and a click opens it
  and leaves the overlay state alone. Every anchor among the cards of the result comes
  from a record with that non-empty link URL.
\<close>

theorem link_decides_card:
  "(page \<in> set pages \<and> \<not> skipped page \<longrightarrow>
      (\<exists>g \<in> set (transformNotionData pages). \<exists>p \<in> set (projects g).
         project_id p = page_id page
         \<and> image_src p = url (file_ref (Cover_files page ! 0))
         \<and> ((Link_url page = None \<or> Link_url page = Some []) \<longrightarrow>
              link p = None \<and> renderCard p = Div (image_src p)
              \<and> handle (CardClick (renderCard p)) s = s\<lparr> selectedImage := Some (image_src p) \<rparr>
              \<and> overlayShown (handle (CardClick (renderCard p)) s) = (image_src p \<noteq> []))
         \<and> (\<forall>href. Link_url page = Some href \<and> href \<noteq> [] \<longrightarrow>
              link p = Some href \<and> renderCard p = Anchor href
              \<and> handle (CardClick (renderCard p)) s = s\<lparr> opened := opened s @ [href] \<rparr>)))
   \<and> (\<forall>g \<in> set (transformNotionData pages). \<forall>p \<in> set (projects g). \<forall>href.
        renderCard p = Anchor href \<longrightarrow>
          href \<noteq> [] \<and> link p = Some href
          \<and> (\<exists>page \<in> set pages. \<not> skipped page \<and> Link_url page = Some href
                \<and> p = mkProject page (the (Category_select page))))"
proof (rule conjI)
  show "page \<in> set pages \<and> \<not> skipped page \<longrightarrow>
      (\<exists>g \<in> set (transformNotionData pages). \<exists>p \<in> set (projects g).
         project_id p = page_id page
         \<and> image_src p = url (file_ref (Cover_files page ! 0))
         \<and> ((Link_url page = None \<or> Link_url page = Some []) \<longrightarrow>
              link p = None \<and> renderCard p = Div (image_src p)
              \<and> handle (CardClick (renderCard p)) s = s\<lparr> selectedImage := Some (image_src p) \<rparr>
              \<and> overlayShown (handle (CardClick (renderCard p)) s) = (image_src p \<noteq> []))
         \<and> (\<forall>href. Link_url page = Some href \<and> href \<noteq> [] \<longrightarrow>
              link p = Some href \<and> renderCard p = Anchor href
              \<and> handle (CardClick (renderCard p)) s = s\<lparr> opened := opened s @ [href] \<rparr>))"
  proof (rule impI)
    assume a: "page \<in> set pages \<and> \<not> skipped page"
    then obtain g where g: "g \<in> set (transformNotionData pages)"
      and pg: "mkProject page (the (Category_select page)) \<in> set (projects g)"
      using accepted_in_transform[of page pages] by blast
    let ?p = "mkProject page (the (Category_select page))"
    from a have files: "Cover_files page \<noteq> []"
      by (simp add: skipped_def)
    have "project_id ?p = page_id page"
      by (simp add: mkProject_def)
    moreover have "image_src ?p = url (file_ref (Cover_files page ! 0))"
      using files by (simp add: mkProject_def hd_conv_nth)
    moreover have "(Link_url page = None \<or> Link_url page = Some []) \<longrightarrow>
              link ?p = None \<and> renderCard ?p = Div (image_src ?p)
              \<and> handle (CardClick (renderCard ?p)) s = s\<lparr> selectedImage := Some (image_src ?p) \<rparr>
              \<and> overlayShown (handle (CardClick (renderCard ?p)) s) = (image_src ?p \<noteq> [])"
      by (auto simp: mkProject_def renderCard_def overlayShown_def)
    moreover have "\<forall>href. Link_url page = Some href \<and> href \<noteq> [] \<longrightarrow>
              link ?p = Some href \<and> renderCard ?p = Anchor href
              \<and> handle (CardClick (renderCard ?p)) s = s\<lparr> opened := opened s @ [href] \<rparr>"
      by (auto simp: mkProject_def renderCard_def)
    ultimately show "\<exists>g \<in> set (transformNotionData pages). \<exists>p \<in> set (projects g).
         project_id p = page_id page
         \<and> image_src p = url (file_ref (Cover_files page ! 0))
         \<and> ((Link_url page = None \<or> Link_url page = Some []) \<longrightarrow>
              link p = None \<and> renderCard p = Div (image_src p)
              \<and> handle (CardClick (renderCard p)) s = s\<lparr> selectedImage := Some (image_src p) \<rparr>
              \<and> overlayShown (handle (CardClick (renderCard p)) s) = (image_src p \<noteq> []))
         \<and> (\<forall>href. Link_url page = Some href \<and> href \<noteq> [] \<longrightarrow>
              link p = Some href \<and> renderCard p = Anchor href
              \<and> handle (CardClick (renderCard p)) s = s\<lparr> opened := opened s @ [href] \<rparr>)"
      using g pg by blast
  qed
  show "\<forall>g \<in> set (transformNotionData pages). \<forall>p \<in> set (projects g). \<forall>href.
        renderCard p = Anchor href \<longrightarrow>
          href \<noteq> [] \<and> link p = Some href
          \<and> (\<exists>page \<in> set pages. \<not> skipped page \<and> Link_url page = Some href
                \<and> p = mkProject page (the (Category_select page)))"
  proof (intro ballI allI impI)
    fix g p href
    assume g: "g \<in> set (transformNotionData pages)" and p: "p \<in> set (projects g)"
      and r: "renderCard p = Anchor href"
    from emitted_from_record[OF g p] obtain page where
      page: "page \<in> set pages" "\<not> skipped page" "p = mkProject page (the (Category_select page))"
      by blast
    from r page(3) have "href \<noteq> [] \<and> link p = Some href \<and> Link_url page = Some href"
      by (cases "Link_url page")
         (auto simp: mkProject_def renderCard_def split: if_splits)
    with page show "href \<noteq> [] \<and> link p = Some href
          \<and> (\<exists>page \<in> set pages. \<not> skipped page \<and> Link_url page = Some href
                \<and> p = mkProject page (the (Category_select page)))"
      by blast
  qed
qed

text \<open>The sample records: the record whose link is the empty string has a \<^verbatim>\<open>div\<close>
  card that opens the overlay, and the first card is an anchor to its record's link.\<close>

theorem link_decides_card_witness:
  "unlinkedPage \<in> set exampleResults \<and> \<not> skipped unlinkedPage
   \<and> Link_url unlinkedPage = Some []
   \<and> map (map renderCard \<circ> projects) (transformNotionData exampleResults)
       = [[Anchor ''https://example.org'', Div ''https://files.example/cover.png''],
          [Div ''https://files.example/cover.png'']]
   \<and> (\<exists>g \<in> set (transformNotionData exampleResults). \<exists>p \<in> set (projects g).
         project_id p = ''p2'' \<and> link p = None
         \<and> renderCard p = Div ''https://files.example/cover.png''
         \<and> overlayShown (handle (CardClick (renderCard p)) initial))
   \<and> link (hd (projects (hd (transformNotionData exampleResults))))
       = Some ''https://example.org''"
proof -
  have m: "unlinkedPage \<in> set exampleResults \<and> \<not> skipped unlinkedPage"
    by (simp add: unlinkedPage_def exampleResults_def examplePage_def skipped_def)
  have l: "Link_url unlinkedPage = Some []"
    by (simp add: unlinkedPage_def examplePage_def)
  have i: "page_id unlinkedPage = ''p2''"
    "url (file_ref (Cover_files unlinkedPage ! 0)) = ''https://files.example/cover.png''"
    by (simp_all add: unlinkedPage_def example_defs)
  have cards: "map (map renderCard \<circ> projects) (transformNotionData exampleResults)
       = [[Anchor ''https://example.org'', Div ''https://files.example/cover.png''],
          [Div ''https://files.example/cover.png'']]"
    by (simp add: example_defs transform_defs renderCard_def)
  from link_decides_card[of unlinkedPage exampleResults initial] m
  obtain g p where gp: "g \<in> set (transformNotionData exampleResults)" "p \<in> set (projects g)"
    and f: "project_id p = page_id unlinkedPage"
      "image_src p = url (file_ref (Cover_files unlinkedPage ! 0))"
    and imp: "(Link_url unlinkedPage = None \<or> Link_url unlinkedPage = Some []) \<longrightarrow>
              link p = None \<and> renderCard p = Div (image_src p)
              \<and> handle (CardClick (renderCard p)) initial
                  = initial\<lparr> selectedImage := Some (image_src p) \<rparr>
              \<and> overlayShown (handle (CardClick (renderCard p)) initial) = (image_src p \<noteq> [])"
    by blast
  from imp l have card: "link p = None" "renderCard p = Div (image_src p)"
    and ov: "overlayShown (handle (CardClick (renderCard p)) initial) = (image_src p \<noteq> [])"
    by blast+
  from f i have "image_src p \<noteq> []"
    by simp
  with ov have "overlayShown (handle (CardClick (renderCard p)) initial)"
    by blast
  with f i card have "project_id p = ''p2'' \<and> link p = None
         \<and> renderCard p = Div ''https://files.example/cover.png''
         \<and> overlayShown (handle (CardClick (renderCard p)) initial)"
    by simp
  with gp have "\<exists>g \<in> set (transformNotionData exampleResults). \<exists>p \<in> set (projects g).
         project_id p = ''p2'' \<and> link p = None
         \<and> renderCard p = Div ''https://files.example/cover.png''
         \<and> overlayShown (handle (CardClick (renderCard p)) initial)"
    by blast
  moreover have "link (hd (projects (hd (transformNotionData exampleResults))))
       = Some ''https://example.org''"
  proof -
    have g1: "hd (transformNotionData exampleResults) \<in> set (transformNotionData exampleResults)"
      and p1: "hd (projects (hd (transformNotionData exampleResults)))
                 \<in> set (projects (hd (transformNotionData exampleResults)))"
      and r1: "renderCard (hd (projects (hd (transformNotionData exampleResults))))
                 = Anchor ''https://example.org''"
      by (simp_all add: example_defs transform_defs renderCard_def)
    from link_decides_card[of unlinkedPage exampleResults initial] g1 p1 r1
    show ?thesis by blast
  qed
  ultimately show ?thesis using m l cards by simp
qed

text \<open>
  C10 as stated fails: a record with no link whose only cover file has the empty URL is
  accepted, its card is the \<^verbatim>\<open>div\<close>, and a click on it sets the overlay image to the
  empty string, on which the overlay is not rendered.
\<close>

theorem link_decides_card_counterexample:
  "\<not> skipped emptyUrlPage
   \<and> Link_url emptyUrlPage = None
   \<and> map (map renderCard \<circ> projects) (transformNotionData [emptyUrlPage]) = [[Div []]]
   \<and> handle (CardClick (Div [])) initial = initial\<lparr> selectedImage := Some [] \<rparr>
   \<and> \<not> overlayShown (handle (CardClick (Div [])) initial)"
  by (simp add: emptyUrlPage_def example_defs transform_defs renderCard_def overlayShown_def)

end
